theory Spec2Isabelle
  imports Main "HOL-Library.Sublist"
begin

section \<open>JavaScript values, completions and the timer table\<close>

text \<open>
  A module-level variable of the two Svelte screens holds \<open>null\<close>, \<open>undefined\<close> or a
  proper value. The three are kept apart because the source compares with \<open>!== null\<close>
  (which \<open>undefined\<close> passes) and tests truthiness (which neither passes).
\<close>

datatype 'a js = Null | Undefined | Val 'a

text \<open>\<open>x ?? []\<close>, and whether \<open>x\<close> is an array (a truthy value that can be spread).\<close>

fun or_empty :: "'a list js \<Rightarrow> 'a list" where
  "or_empty (Val xs) = xs"
| "or_empty Null = []"
| "or_empty Undefined = []"

fun is_array :: "'a list js \<Rightarrow> bool" where
  "is_array (Val xs) = True"
| "is_array Null = False"
| "is_array Undefined = False"

datatype js_error = TypeError

text \<open>
  A piece of code either runs to its end or throws. A throw does not roll back the
  assignments made before it, so both outcomes carry the state reached.
\<close>

datatype 's completion = Returns 's | Throws js_error 's

fun state_of :: "'s completion \<Rightarrow> 's" where
  "state_of (Returns s) = s"
| "state_of (Throws e s) = s"

fun returned :: "'s completion \<Rightarrow> bool" where
  "returned (Returns s) = True"
| "returned (Throws e s) = False"

text \<open>
  The timer table of the JavaScript host: the clock in milliseconds, the pending
  timers as (handle, due time) in the order of registration, the last handle handed
  out (handles are positive, so a handle is truthy) and the handles whose callback
  has run, oldest first.
\<close>

record timer_env =
  clock :: nat
  pending :: "(nat \<times> nat) list"
  last_handle :: nat
  fired :: "nat list"

definition timers0 :: timer_env where
  "timers0 = \<lparr>clock = 0, pending = [], last_handle = 0, fired = []\<rparr>"

definition setTimeout :: "nat \<Rightarrow> timer_env \<Rightarrow> nat \<times> timer_env" where
  "setTimeout delay e =
     (Suc (last_handle e),
      e\<lparr>pending := pending e @ [(Suc (last_handle e), clock e + delay)],
        last_handle := Suc (last_handle e)\<rparr>)"

definition clearTimeout :: "nat \<Rightarrow> timer_env \<Rightarrow> timer_env" where
  "clearTimeout h e = e\<lparr>pending := filter (\<lambda>p. fst p \<noteq> h) (pending e)\<rparr>"

text \<open>The pending timer that is due first; among equal due times the one registered first.\<close>

fun earliest :: "(nat \<times> nat) list \<Rightarrow> (nat \<times> nat) option" where
  "earliest [] = None"
| "earliest (p # ps) =
     (case earliest ps of
        None \<Rightarrow> Some p
      | Some q \<Rightarrow> if snd p \<le> snd q then Some p else Some q)"

definition next_due :: "nat \<Rightarrow> timer_env \<Rightarrow> (nat \<times> nat) option" where
  "next_due t e =
     (case earliest (pending e) of
        None \<Rightarrow> None
      | Some p \<Rightarrow> if snd p \<le> t then Some p else None)"

text \<open>Taking a due timer off the table: the clock reaches its due time, its handle is logged.\<close>

definition take_timer :: "nat \<times> nat \<Rightarrow> timer_env \<Rightarrow> timer_env" where
  "take_timer p e =
     (clearTimeout (fst p) e)\<lparr>clock := max (clock e) (snd p), fired := fired e @ [fst p]\<rparr>"

text \<open>\<open>if (searchDebounceTimer)\<close>: a handle is truthy when it is neither \<open>null\<close> nor 0.\<close>

fun truthy_handle :: "nat option \<Rightarrow> bool" where
  "truthy_handle None = False"
| "truthy_handle (Some h) = (h \<noteq> 0)"

text \<open>
  The body of \<open>debounceSearch\<close>, which is the same in both screens: clear the timer the
  handle variable names, if it is truthy, and register a new one; the caller stores the
  new handle in the variable.
\<close>

definition debounce :: "nat option \<Rightarrow> nat \<Rightarrow> timer_env \<Rightarrow> nat \<times> timer_env" where
  "debounce handle delay e =
     setTimeout delay (if truthy_handle handle then clearTimeout (the handle) e else e)"

section \<open>Knowledge.svelte: search, debounce and manual pagination\<close>

text \<open>
  A call of \<open>searchKnowledgeBases(token, query, viewOption, page)\<close> as the network sees
  it: the query, the view option and the page.
\<close>

type_synonym request = "string \<times> string \<times> nat"

text \<open>
  Modelled from the spec: the declaration of \<open>searchKnowledgeBases\<close> (in
  \<open>$lib/apis/knowledge\<close>) is not among the sources. By the interface
  \<open>searchRecords(queryText, filterToken, page) -> {items: sequence<Record>, total:
  integer}\<close> the promise is fulfilled with a sequence of records and an integer, or it is
  rejected.
\<close>

datatype 'r reply = Fulfilled "'r list" int | Rejected

record 'r knowledge =
  loaded :: bool
  page :: nat
  query :: string
  viewOption :: string
  items :: "'r list js"
  totalK :: "int js"
  allItemsLoaded :: bool
  itemsLoading :: bool
  hasLoadedInitialPage :: bool
  searchDebounceTimer :: "nat option"
  lastQuery :: string
  lastViewOption :: string
  isInitialLoad :: bool
  timers :: timer_env
  requests :: "request list"
  settled :: "nat list"

text \<open>The declarations of lines 30 to 51, before \<open>onMount\<close> has run.\<close>

definition knowledge0 :: "'r knowledge" where
  "knowledge0 =
     \<lparr>loaded = False, page = 1, query = [], viewOption = [], items = Null, totalK = Null,
      allItemsLoaded = False, itemsLoading = False, hasLoadedInitialPage = False,
      searchDebounceTimer = None, lastQuery = [], lastViewOption = [],
      isInitialLoad = True, timers = timers0, requests = [], settled = []\<rparr>"

definition reset :: "'r knowledge \<Rightarrow> 'r knowledge" where
  "reset s = s\<lparr>page := 1, items := Null, totalK := Null, allItemsLoaded := False,
               itemsLoading := False, hasLoadedInitialPage := False\<rparr>"

text \<open>
  \<open>getItemsPage\<close> up to its \<open>await\<close>: the loading flag is raised and the request leaves
  with the query, the view option and the page of that moment.
\<close>

definition getItemsPage_issue :: "'r knowledge \<Rightarrow> 'r knowledge" where
  "getItemsPage_issue s =
     s\<lparr>itemsLoading := True, requests := requests s @ [(query s, viewOption s, page s)]\<rparr>"

text \<open>
  What \<open>res\<close> holds after \<open>.catch(() => { return []; })\<close>: the fulfilled object, or the
  empty array, whose \<open>total\<close> and \<open>items\<close> are \<open>undefined\<close>. Both are truthy, so the
  body of \<open>if (res)\<close> runs in either case.
\<close>

fun res_total :: "'r reply \<Rightarrow> int js" where
  "res_total (Fulfilled its n) = Val n"
| "res_total Rejected = Undefined"

fun res_items :: "'r reply \<Rightarrow> 'r list js" where
  "res_items (Fulfilled its n) = Val its"
| "res_items Rejected = Undefined"

text \<open>\<open>(pageItems ?? []).length\<close>\<close>

fun length_or_empty :: "'a list js \<Rightarrow> nat" where
  "length_or_empty (Val xs) = length xs"
| "length_or_empty Null = 0"
| "length_or_empty Undefined = 0"

text \<open>\<open>total !== null && items.length >= total\<close>, for an array \<open>items\<close>; a comparison
  with \<open>undefined\<close> is false.\<close>

fun reached_total :: "int js \<Rightarrow> 'a list \<Rightarrow> bool" where
  "reached_total Null xs = False"
| "reached_total Undefined xs = False"
| "reached_total (Val n) xs = (n \<le> int (length xs))"

text \<open>
  Lines 166 to 180: the exhaustion flag, the first-page mark and the loading flag.
  \<open>items.length\<close> is read only when the page was not empty and \<open>total\<close> is not
  \<open>null\<close>; on a value that is no array the read throws.
\<close>

definition getItemsPage_finish :: "'r list js \<Rightarrow> 'r knowledge \<Rightarrow> 'r knowledge completion" where
  "getItemsPage_finish pageItems s =
     (let mark = (\<lambda>b. (if page s = 1
                        then s\<lparr>allItemsLoaded := b, hasLoadedInitialPage := True\<rparr>
                        else s\<lparr>allItemsLoaded := b\<rparr>)\<lparr>itemsLoading := False\<rparr>)
      in if length_or_empty pageItems = 0 then Returns (mark True)
         else if totalK s = Null then Returns (mark False)
         else (case items s of
                 Val xs \<Rightarrow> Returns (mark (reached_total (totalK s) xs))
               | _ \<Rightarrow> Throws TypeError s))"

text \<open>
  \<open>getItemsPage\<close> from its \<open>await\<close> on (lines 155 to 181). It reads the module's
  variables as they are when the promise settles. Spreading \<open>undefined\<close> into an array
  literal throws, which leaves \<open>total\<close> overwritten and the loading flag raised.
\<close>

definition getItemsPage_resume :: "'r reply \<Rightarrow> 'r knowledge \<Rightarrow> 'r knowledge completion" where
  "getItemsPage_resume r s =
     (let s1 = s\<lparr>totalK := res_total r\<rparr>;
          pageItems = res_items r
      in case items s1 of
           Val xs \<Rightarrow>
             (case pageItems of
                Val ys \<Rightarrow> getItemsPage_finish pageItems (s1\<lparr>items := Val (xs @ ys)\<rparr>)
              | _ \<Rightarrow> Throws TypeError s1)
         | _ \<Rightarrow> getItemsPage_finish pageItems (s1\<lparr>items := pageItems\<rparr>))"

definition init :: "'r knowledge \<Rightarrow> 'r knowledge" where
  "init s = getItemsPage_issue (reset s)"

definition loadMoreItems :: "'r knowledge \<Rightarrow> 'r knowledge" where
  "loadMoreItems s =
     (if allItemsLoaded s \<or> itemsLoading s then s
      else if \<not> hasLoadedInitialPage s \<or> items s = Null then s
      else getItemsPage_issue (s\<lparr>page := page s + 1\<rparr>))"

text \<open>
  A request that has left and has not settled is in flight. When request \<open>i\<close> settles,
  the rest of \<open>getItemsPage\<close> runs; nothing follows it in \<open>init\<close> or \<open>loadMoreItems\<close>, and
  nobody catches what it throws.
\<close>

definition in_flight :: "'r knowledge \<Rightarrow> nat \<Rightarrow> bool" where
  "in_flight s i = (i < length (requests s) \<and> i \<notin> set (settled s))"

definition fetch_settles :: "nat \<Rightarrow> 'r reply \<Rightarrow> 'r knowledge \<Rightarrow> 'r knowledge" where
  "fetch_settles i r s =
     (if in_flight s i then state_of (getItemsPage_resume r (s\<lparr>settled := i # settled s\<rparr>))
      else s)"

text \<open>The "Load More" button of lines 325 to 431 is rendered in these states.\<close>

definition loadMoreOffered :: "'r knowledge \<Rightarrow> bool" where
  "loadMoreOffered s =
     (loaded s \<and> items s \<noteq> Null \<and> totalK s \<noteq> Null \<and> length_or_empty (items s) \<noteq> 0
      \<and> \<not> allItemsLoaded s)"

subsection \<open>The debounce timer and the reactive statements\<close>

definition debounceSearch :: "nat \<Rightarrow> 'r knowledge \<Rightarrow> 'r knowledge" where
  "debounceSearch delay s =
     (let (h, e) = debounce (searchDebounceTimer s) delay (timers s)
      in s\<lparr>searchDebounceTimer := Some h, timers := e\<rparr>)"

text \<open>The callback handed to \<open>debounceSearch\<close> at line 89.\<close>

definition search_callback :: "'r knowledge \<Rightarrow> 'r knowledge" where
  "search_callback s = (if query s = lastQuery s then init s else s)"

text \<open>The reactive statement of line 83, run after \<open>query\<close> has changed.\<close>

definition query_changed :: "'r knowledge \<Rightarrow> 'r knowledge" where
  "query_changed s =
     (if loaded s \<and> \<not> isInitialLoad s then
        (if query s \<noteq> lastQuery s then debounceSearch 500 (s\<lparr>lastQuery := query s\<rparr>) else s)
      else s)"

text \<open>The reactive statement of line 112, run after \<open>viewOption\<close> has changed.\<close>

definition viewOption_changed :: "'r knowledge \<Rightarrow> 'r knowledge" where
  "viewOption_changed s =
     (if loaded s \<and> viewOption s \<noteq> lastViewOption s \<and> \<not> isInitialLoad s then
        (let s1 = s\<lparr>lastViewOption := viewOption s\<rparr>;
             s2 = (if truthy_handle (searchDebounceTimer s1)
                   then s1\<lparr>timers := clearTimeout (the (searchDebounceTimer s1)) (timers s1),
                           searchDebounceTimer := None\<rparr>
                   else s1)
         in init s2)
      else s)"

text \<open>
  The bound input and the view selector assign the variable; Svelte runs the reactive
  statement only when the assigned value differs from the old one.
\<close>

definition setQuery :: "string \<Rightarrow> 'r knowledge \<Rightarrow> 'r knowledge" where
  "setQuery q s = (if q = query s then s else query_changed (s\<lparr>query := q\<rparr>))"

definition setViewOption :: "string \<Rightarrow> 'r knowledge \<Rightarrow> 'r knowledge" where
  "setViewOption v s = (if v = viewOption s then s else viewOption_changed (s\<lparr>viewOption := v\<rparr>))"

text \<open>\<open>onMount\<close> with the view option found in local storage, and \<open>onDestroy\<close>.\<close>

definition onMount :: "string \<Rightarrow> 'r knowledge \<Rightarrow> 'r knowledge" where
  "onMount stored s =
     init (s\<lparr>viewOption := stored, lastViewOption := stored, lastQuery := query s,
             isInitialLoad := False, loaded := True\<rparr>)"

definition onDestroy :: "'r knowledge \<Rightarrow> 'r knowledge" where
  "onDestroy s =
     (if truthy_handle (searchDebounceTimer s)
      then s\<lparr>timers := clearTimeout (the (searchDebounceTimer s)) (timers s),
             searchDebounceTimer := None\<rparr>
      else s)"

text \<open>
  Time passes: the timers that fall due by \<open>t\<close> fire in the order of their due times,
  each running the callback of line 89. The callback registers and clears no timer.
\<close>

lemma timers_search_callback: "timers (search_callback s) = timers s"
  by (simp add: search_callback_def init_def getItemsPage_issue_def reset_def)

lemma earliest_mem: "earliest ps = Some p \<Longrightarrow> p \<in> set ps"
  by (induction ps arbitrary: p) (auto split: option.splits if_splits)

lemma next_due_mem: "next_due t e = Some p \<Longrightarrow> p \<in> set (pending e)"
  by (auto simp: next_due_def earliest_mem split: option.splits if_splits)

lemma take_timer_shrinks:
  assumes "next_due t e = Some p"
  shows "length (pending (take_timer p e)) < length (pending e)"
proof -
  have "p \<in> set (pending e)" using assms by (rule next_due_mem)
  then have "length (filter (\<lambda>q. fst q \<noteq> fst p) (pending e)) < length (pending e)"
    by (intro length_filter_less[of p]) auto
  then show ?thesis by (simp add: take_timer_def clearTimeout_def)
qed

function run_timers :: "nat \<Rightarrow> 'r knowledge \<Rightarrow> 'r knowledge" where
  "run_timers t s =
     (case next_due t (timers s) of
        None \<Rightarrow> s
      | Some p \<Rightarrow> run_timers t (search_callback (s\<lparr>timers := take_timer p (timers s)\<rparr>)))"
  by pat_completeness auto
termination
  by (relation "measure (\<lambda>(t, s). length (pending (timers s)))")
     (auto simp: timers_search_callback take_timer_shrinks)

declare run_timers.simps [simp del]

definition advance :: "nat \<Rightarrow> 'r knowledge \<Rightarrow> 'r knowledge" where
  "advance d s =
     (let t = clock (timers s) + d; s' = run_timers t s
      in s'\<lparr>timers := (timers s')\<lparr>clock := t\<rparr>\<rparr>)"

text \<open>What can happen to the mounted screen, and a run of such events.\<close>

datatype 'r event =
    Mount string
  | Type string
  | SelectView string
  | Wait nat
  | Settle nat "'r reply"
  | LoadMore
  | Destroy

fun step :: "'r event \<Rightarrow> 'r knowledge \<Rightarrow> 'r knowledge" where
  "step (Mount stored) s = onMount stored s"
| "step (Type q) s = setQuery q s"
| "step (SelectView v) s = setViewOption v s"
| "step (Wait d) s = advance d s"
| "step (Settle i r) s = fetch_settles i r s"
| "step LoadMore s = loadMoreItems s"
| "step Destroy s = onDestroy s"

definition run :: "'r event list \<Rightarrow> 'r knowledge \<Rightarrow> 'r knowledge" where
  "run evs s = fold step evs s"



text \<open>
  The exhaustion rule in the words of the specification: the page was empty, or the
  declared total is known and the accumulated items have reached it.
\<close>

definition exhausted_spec :: "nat \<Rightarrow> int js \<Rightarrow> nat \<Rightarrow> bool" where
  "exhausted_spec pageItemCount declaredTotal accumulated =
     (pageItemCount = 0 \<or> (case declaredTotal of Val n \<Rightarrow> n \<le> int accumulated | _ \<Rightarrow> False))"

section \<open>Chats.svelte: the filtered and sorted view, tags and debounce\<close>

text \<open>
  Strings are sequences of ASCII code units. \<open>trim\<close> strips the ASCII white space at
  both ends, \<open>toLowerCase\<close> maps \<open>A\<close> to \<open>Z\<close> onto \<open>a\<close> to \<open>z\<close>, \<open>includes\<close> (here
  \<open>includes_str\<close>) looks for the argument at every position of the receiver, \<open>join\<close>
  puts the separator between the elements.
\<close>

definition is_space :: "char \<Rightarrow> bool" where
  "is_space c = (of_char c \<in> set [9, 10, 11, 12, 13, 32 :: nat])"

definition trim :: "string \<Rightarrow> string" where
  "trim s = rev (dropWhile is_space (rev (dropWhile is_space s)))"

definition lower_char :: "char \<Rightarrow> char" where
  "lower_char c =
     (let n = (of_char c :: nat) in if 65 \<le> n \<and> n \<le> 90 then char_of (n + 32) else c)"

definition toLowerCase :: "string \<Rightarrow> string" where
  "toLowerCase s = map lower_char s"

fun includes_str :: "string \<Rightarrow> string \<Rightarrow> bool" where
  "includes_str [] sub = (sub = [])"
| "includes_str (c # cs) sub = (prefix sub (c # cs) \<or> includes_str cs sub)"

fun join :: "string \<Rightarrow> string list \<Rightarrow> string" where
  "join sep [] = []"
| "join sep [x] = x"
| "join sep (x # y # ys) = x @ sep @ join sep (y # ys)"

text \<open>\<open>Array.from(new Set(xs))\<close>: the first occurrence of every element, in order.\<close>

fun uniq :: "'a list \<Rightarrow> 'a list" where
  "uniq [] = []"
| "uniq (x # xs) = x # uniq (filter (\<lambda>y. y \<noteq> x) xs)"

text \<open>
  \<open>Array.prototype.sort\<close> with a comparator: a stable sort. An element goes in front
  of the first element it does not compare greater than.
\<close>

fun insert_by :: "('a \<Rightarrow> 'a \<Rightarrow> int) \<Rightarrow> 'a \<Rightarrow> 'a list \<Rightarrow> 'a list" where
  "insert_by cmp x [] = [x]"
| "insert_by cmp x (y # ys) = (if cmp x y \<le> 0 then x # y # ys else y # insert_by cmp x ys)"

definition array_sort :: "('a \<Rightarrow> 'a \<Rightarrow> int) \<Rightarrow> 'a list \<Rightarrow> 'a list" where
  "array_sort cmp xs = foldr (insert_by cmp) xs []"

text \<open>The type \<open>ChatData\<close> of lines 33 to 40; an optional field that is absent is \<open>None\<close>.\<close>

record ChatData =
  id_chat :: string
  title :: "string option"
  updated_at :: "int option"
  models :: "string list option"
  tags :: "string list option"

text \<open>\<open>x || ''\<close>, \<open>x || []\<close>, \<open>x || 0\<close> and \<open>(x || [])[0] || ''\<close>\<close>

fun or_blank :: "string option \<Rightarrow> string" where
  "or_blank None = []"
| "or_blank (Some x) = x"

fun or_none :: "'a list option \<Rightarrow> 'a list" where
  "or_none None = []"
| "or_none (Some xs) = xs"

fun or_zero :: "int option \<Rightarrow> int" where
  "or_zero None = 0"
| "or_zero (Some n) = n"

fun first_or_blank :: "string list option \<Rightarrow> string" where
  "first_or_blank None = []"
| "first_or_blank (Some []) = []"
| "first_or_blank (Some (x # xs)) = x"

text \<open>The filter callback of lines 142 to 147.\<close>

definition chat_matches :: "string \<Rightarrow> ChatData \<Rightarrow> bool" where
  "chat_matches lowerQuery chat =
     (let title' = toLowerCase (or_blank (title chat));
          modelNames = toLowerCase (join '' '' (or_none (models chat)));
          tags' = toLowerCase (join '' '' (or_none (tags chat)))
      in includes_str title' lowerQuery \<or> includes_str modelNames lowerQuery
         \<or> includes_str tags' lowerQuery)"

text \<open>
  The comparator of lines 151 to 168. \<open>localeCompare\<close> is the collation of the host,
  which the language leaves to the implementation; it is a parameter.
\<close>

definition compare_chats ::
  "(string \<Rightarrow> string \<Rightarrow> int) \<Rightarrow> string \<Rightarrow> string \<Rightarrow> ChatData \<Rightarrow> ChatData \<Rightarrow> int" where
  "compare_chats localeCompare key order a b =
     (let comparison =
        (if key = ''date'' then or_zero (updated_at a) - or_zero (updated_at b)
         else if key = ''model''
           then localeCompare (first_or_blank (models a)) (first_or_blank (models b))
         else if key = ''tag''
           then localeCompare (first_or_blank (tags a)) (first_or_blank (tags b))
         else 0)
      in if order = ''asc'' then comparison else - comparison)"

text \<open>
  Arrays and chat objects live in a store and are named by references: two variables may
  name the same array, and \<open>sort\<close> rewrites the array it is called on. \<open>next_ref\<close> is
  the first address not yet in use. \<open>calls\<close> and \<open>toasts\<close> log the requests sent to
  the chats API and the notifications shown.
\<close>

datatype api_call =
    DeleteTagById string string
  | AddTagById string string
  | GetTagsById string
  | GetAllTags

datatype toast = ToastSuccess string | ToastError string

record chats =
  loaded_c :: bool
  query_c :: string
  sortBy :: string
  sortOrder :: string
  allChatsData :: nat
  filteredChats :: nat
  allTags :: "string list"
  editingTagChatId :: "string option"
  selectedTagsForChat :: "string list"
  searchDebounceTimer_c :: "nat option"
  arrays :: "nat \<Rightarrow> nat list"
  objects :: "nat \<Rightarrow> ChatData"
  next_ref :: nat
  timers_c :: timer_env
  calls :: "api_call list"
  toasts :: "toast list"

text \<open>A new array with the given elements: \<open>filter\<close> and the spread \<open>[...xs]\<close> make one.\<close>

definition new_array :: "nat list \<Rightarrow> chats \<Rightarrow> nat \<times> chats" where
  "new_array xs s =
     (next_ref s, s\<lparr>arrays := (arrays s)(next_ref s := xs), next_ref := Suc (next_ref s)\<rparr>)"

text \<open>\<open>a.sort(cmp)\<close> sorts the array \<open>a\<close> in place.\<close>

definition sort_in_place :: "(ChatData \<Rightarrow> ChatData \<Rightarrow> int) \<Rightarrow> nat \<Rightarrow> chats \<Rightarrow> chats" where
  "sort_in_place cmp a s =
     s\<lparr>arrays := (arrays s)(a := array_sort (\<lambda>x y. cmp (objects s x) (objects s y)) (arrays s a))\<rparr>"

definition applyFiltersAndSort :: "(string \<Rightarrow> string \<Rightarrow> int) \<Rightarrow> chats \<Rightarrow> chats" where
  "applyFiltersAndSort localeCompare s =
     (let (filtered, s1) =
            (if trim (query_c s) \<noteq> [] then
               new_array (filter (\<lambda>c. chat_matches (toLowerCase (query_c s)) (objects s c))
                            (arrays s (allChatsData s))) s
             else (allChatsData s, s));
          (copy, s2) = new_array (arrays s1 filtered) s1;
          s3 = sort_in_place (compare_chats localeCompare (sortBy s) (sortOrder s)) copy s2
      in s3\<lparr>filteredChats := copy\<rparr>)"

text \<open>The records the screen lists: the objects the array \<open>filteredChats\<close> names.\<close>

definition shown :: "chats \<Rightarrow> ChatData list" where
  "shown s = map (objects s) (arrays s (filteredChats s))"

subsection \<open>Saving the tags of a chat\<close>

text \<open>Lines 237 to 249 of \<open>saveTag\<close>.\<close>

definition normalize_selected :: "string list \<Rightarrow> string list" where
  "normalize_selected selected = uniq (filter (\<lambda>t. t \<noteq> []) (map trim selected))"

definition tagsToRemove :: "string list \<Rightarrow> string list \<Rightarrow> string list" where
  "tagsToRemove currentTags newTags = filter (\<lambda>tag. tag \<notin> set newTags) currentTags"

definition tagsToAdd :: "string list \<Rightarrow> string list \<Rightarrow> string list" where
  "tagsToAdd currentTags newTags = filter (\<lambda>tag. tag \<notin> set currentTags) newTags"

text \<open>What a promise settles to.\<close>

datatype 'a settle = Resolves 'a | Rejects

text \<open>
  Modelled from the spec: the functions of \<open>$lib/apis/chats\<close> are not among the sources.
  By the interfaces \<open>removeTag(recordId, tagName) -> success|failure\<close>,
  \<open>addTag(recordId, tagName) -> success|failure\<close> and \<open>getTagsFor(recordId) ->
  sequence<string>\<close>, the answers of the server to the requests of one \<open>saveTag\<close> are:
  for every tag whether its delete and its add are rejected, and what the two reads of
  tag lists settle to.
\<close>

record replies =
  delete_rejects :: "string \<Rightarrow> bool"
  add_rejects :: "string \<Rightarrow> bool"
  tags_reply :: "string list js settle"
  all_tags_reply :: "string list js settle"

text \<open>The \<open>catch\<close> block of lines 272 to 275.\<close>

definition saveTag_failed :: "chats \<Rightarrow> chats" where
  "saveTag_failed s = s\<lparr>toasts := toasts s @ [ToastError ''Failed to update tag'']\<rparr>"

text \<open>
  \<open>saveTag\<close>, run to its end with no other event in between. All delete and add requests
  leave before \<open>Promise.all\<close> is awaited; a rejected delete is caught on the spot, a
  rejected add rejects \<open>Promise.all\<close> and control passes to the \<open>catch\<close> block.
\<close>

definition saveTag :: "(string \<Rightarrow> string \<Rightarrow> int) \<Rightarrow> replies \<Rightarrow> string \<Rightarrow> chats \<Rightarrow> chats" where
  "saveTag localeCompare rp chatId s =
     (case find (\<lambda>c. id_chat (objects s c) = chatId) (arrays s (allChatsData s)) of
        None \<Rightarrow> s
      | Some chat \<Rightarrow>
          (let currentTags = or_none (tags (objects s chat));
               newTags = normalize_selected (selectedTagsForChat s);
               removes = tagsToRemove currentTags newTags;
               adds = tagsToAdd currentTags newTags;
               s1 = s\<lparr>calls := calls s @ map (DeleteTagById chatId) removes
                                      @ map (AddTagById chatId) adds\<rparr>
           in if list_ex (add_rejects rp) adds then saveTag_failed s1
              else
                (let s2 = s1\<lparr>calls := calls s1 @ [GetTagsById chatId]\<rparr>
                 in case tags_reply rp of
                      Rejects \<Rightarrow> saveTag_failed s2
                    | Resolves v \<Rightarrow>
                        (let updatedTags = filter (\<lambda>t. t \<noteq> []) (or_empty v);
                             s3 = s2\<lparr>objects := (objects s2)
                                     (chat := (objects s2 chat)\<lparr>tags := Some updatedTags\<rparr>)\<rparr>;
                             s4 = s3\<lparr>calls := calls s3 @ [GetAllTags]\<rparr>
                         in case all_tags_reply rp of
                              Rejects \<Rightarrow> saveTag_failed s4
                            | Resolves w \<Rightarrow>
                                (applyFiltersAndSort localeCompare (s4\<lparr>allTags := or_empty w\<rparr>))
                                  \<lparr>editingTagChatId := None, selectedTagsForChat := [],
                                   toasts := toasts s4 @ [ToastSuccess ''Tag updated successfully'']\<rparr>))))"

subsection \<open>The debounce timer of the Chats screen\<close>

definition SEARCH_DEBOUNCE :: nat where
  "SEARCH_DEBOUNCE = 500"

definition debounceSearch_c :: "nat \<Rightarrow> chats \<Rightarrow> chats" where
  "debounceSearch_c delay s =
     (let (h, e) = debounce (searchDebounceTimer_c s) delay (timers_c s)
      in s\<lparr>searchDebounceTimer_c := Some h, timers_c := e\<rparr>)"

text \<open>The reactive statements of lines 174 and 181, run after a variable they read has changed.\<close>

definition query_changed_c :: "chats \<Rightarrow> chats" where
  "query_changed_c s = (if loaded_c s then debounceSearch_c SEARCH_DEBOUNCE s else s)"

definition sort_changed :: "(string \<Rightarrow> string \<Rightarrow> int) \<Rightarrow> chats \<Rightarrow> chats" where
  "sort_changed localeCompare s = (if loaded_c s then applyFiltersAndSort localeCompare s else s)"

definition setQuery_c :: "string \<Rightarrow> chats \<Rightarrow> chats" where
  "setQuery_c q s = (if q = query_c s then s else query_changed_c (s\<lparr>query_c := q\<rparr>))"

definition setSort :: "(string \<Rightarrow> string \<Rightarrow> int) \<Rightarrow> string \<Rightarrow> string \<Rightarrow> chats \<Rightarrow> chats" where
  "setSort localeCompare key order s =
     (if key = sortBy s \<and> order = sortOrder s then s
      else sort_changed localeCompare (s\<lparr>sortBy := key, sortOrder := order\<rparr>))"

text \<open>
  Chats.svelte imports \<open>onMount\<close>, \<open>getContext\<close> and \<open>tick\<close> (line 7) and registers no
  \<open>onDestroy\<close> callback: when the component is torn down, the callbacks registered for
  that moment run, and there is none.
\<close>

definition on_destroy_c :: "(chats \<Rightarrow> chats) list" where
  "on_destroy_c = []"

definition destroy_c :: "chats \<Rightarrow> chats" where
  "destroy_c s = fold (\<lambda>f. f) on_destroy_c s"

lemma timers_applyFiltersAndSort: "timers_c (applyFiltersAndSort lc s) = timers_c s"
  by (simp add: applyFiltersAndSort_def new_array_def sort_in_place_def Let_def split: prod.splits)

function run_timers_c :: "(string \<Rightarrow> string \<Rightarrow> int) \<Rightarrow> nat \<Rightarrow> chats \<Rightarrow> chats" where
  "run_timers_c lc t s =
     (case next_due t (timers_c s) of
        None \<Rightarrow> s
      | Some p \<Rightarrow>
          run_timers_c lc t (applyFiltersAndSort lc (s\<lparr>timers_c := take_timer p (timers_c s)\<rparr>)))"
  by pat_completeness auto
termination
  by (relation "measure (\<lambda>(lc, t, s). length (pending (timers_c s)))")
     (auto simp: timers_applyFiltersAndSort take_timer_shrinks)

declare run_timers_c.simps [simp del]

definition advance_c :: "(string \<Rightarrow> string \<Rightarrow> int) \<Rightarrow> nat \<Rightarrow> chats \<Rightarrow> chats" where
  "advance_c lc d s =
     (let t = clock (timers_c s) + d; s' = run_timers_c lc t s
      in s'\<lparr>timers_c := (timers_c s')\<lparr>clock := t\<rparr>\<rparr>)"

section \<open>Pagination: the guard of \<open>loadMoreItems\<close> and the exhaustion rule\<close>

lemma resume_fulfilled:
  "getItemsPage_resume (Fulfilled pageItems n) s =
     Returns (s\<lparr>totalK := Val n,
                items := Val ((case items s of Val xs \<Rightarrow> xs | _ \<Rightarrow> []) @ pageItems),
                allItemsLoaded := (length pageItems = 0 \<or>
                   n \<le> int (length ((case items s of Val xs \<Rightarrow> xs | _ \<Rightarrow> []) @ pageItems))),
                hasLoadedInitialPage := (page s = 1 \<or> hasLoadedInitialPage s),
                itemsLoading := False\<rparr>)"
  by (cases "items s") (auto simp: getItemsPage_resume_def getItemsPage_finish_def Let_def)

lemmas mounted_defs =
  run_def onMount_def init_def reset_def getItemsPage_issue_def fetch_settles_def
  in_flight_def knowledge0_def timers0_def










text \<open>
  Claim C3. When a fulfilled page is applied, \<open>getItemsPage\<close> returns normally and the
  exhaustion flag equals: the page was empty, or the declared total is known and the
  accumulated items have reached it. On the loaded screen the "Load More" button is
  rendered exactly when the flag is false. With a declared total of 45 and pages of
  20, 20 and 5 items the flag is false after pages 1 and 2 and true after page 3, and
  a fourth \<open>loadMoreItems\<close> issues no fetch.
\<close>

theorem exhaustion_rule:
  fixes s :: "'r knowledge" and p1 p2 p3 :: "'r list"
  assumes "loaded s" and "length p1 = 20" and "length p2 = 20" and "length p3 = 5"
  shows
    "(let s' = state_of (getItemsPage_resume (Fulfilled pageItems n) s)
      in returned (getItemsPage_resume (Fulfilled pageItems n) s) \<and>
         (\<exists>acc. items s' = Val acc \<and>
            allItemsLoaded s' = exhausted_spec (length pageItems) (totalK s') (length acc)) \<and>
         loadMoreOffered s' = (\<not> allItemsLoaded s')) \<and>
     (let s1 = run [Mount v, Settle 0 (Fulfilled p1 45)] knowledge0;
          s2 = run [LoadMore, Settle 1 (Fulfilled p2 45)] s1;
          s3 = run [LoadMore, Settle 2 (Fulfilled p3 45)] s2
      in \<not> allItemsLoaded s1 \<and> \<not> allItemsLoaded s2 \<and> allItemsLoaded s3 \<and>
         items s3 = Val (p1 @ p2 @ p3) \<and>
         loadMoreItems s3 = s3 \<and>
         requests (loadMoreItems s3) = [([], v, 1), ([], v, 2), ([], v, 3)])"
proof -
  have general:
    "(let s' = state_of (getItemsPage_resume (Fulfilled pageItems n) s)
      in returned (getItemsPage_resume (Fulfilled pageItems n) s) \<and>
         (\<exists>acc. items s' = Val acc \<and>
            allItemsLoaded s' = exhausted_spec (length pageItems) (totalK s') (length acc)) \<and>
         loadMoreOffered s' = (\<not> allItemsLoaded s'))"
    using assms(1)
    by (auto simp: resume_fulfilled exhausted_spec_def loadMoreOffered_def Let_def)
  have pages:
    "(let s1 = run [Mount v, Settle 0 (Fulfilled p1 45)] knowledge0;
          s2 = run [LoadMore, Settle 1 (Fulfilled p2 45)] s1;
          s3 = run [LoadMore, Settle 2 (Fulfilled p3 45)] s2
      in \<not> allItemsLoaded s1 \<and> \<not> allItemsLoaded s2 \<and> allItemsLoaded s3 \<and>
         items s3 = Val (p1 @ p2 @ p3) \<and>
         loadMoreItems s3 = s3 \<and>
         requests (loadMoreItems s3) = [([], v, 1), ([], v, 2), ([], v, 3)])"
    using assms(2-4)
    by (simp add: mounted_defs resume_fulfilled loadMoreItems_def Let_def)
  from general pages show ?thesis by (rule conjI)
qed

theorem exhaustion_rule_witness:
  "loaded (onMount [] (knowledge0 :: nat knowledge)) \<and>
   allItemsLoaded (state_of (getItemsPage_resume (Fulfilled [] 3) (onMount [] knowledge0 :: nat knowledge))) \<and>
   \<not> loadMoreOffered (state_of (getItemsPage_resume (Fulfilled [] 3) (onMount [] knowledge0 :: nat knowledge))) \<and>
   allItemsLoaded
     (run [Mount [], Settle 0 (Fulfilled (replicate 20 (1::nat)) 45),
           LoadMore, Settle 1 (Fulfilled (replicate 20 2) 45),
           LoadMore, Settle 2 (Fulfilled (replicate 5 3) 45)] knowledge0)"
proof -
  have l: "loaded (onMount [] (knowledge0 :: nat knowledge))"
    by (simp add: mounted_defs)
  have r: "run [Mount [], Settle 0 (Fulfilled (replicate 20 (1::nat)) 45),
           LoadMore, Settle 1 (Fulfilled (replicate 20 2) 45),
           LoadMore, Settle 2 (Fulfilled (replicate 5 3) 45)] knowledge0 =
        run [LoadMore, Settle 2 (Fulfilled (replicate 5 3) 45)]
          (run [LoadMore, Settle 1 (Fulfilled (replicate 20 2) 45)]
            (run [Mount [], Settle 0 (Fulfilled (replicate 20 (1::nat)) 45)] knowledge0))"
    by (simp add: run_def)
  from exhaustion_rule
         [OF l, of "replicate 20 (1::nat)" "replicate 20 2" "replicate 5 3" "[]" 3 "[]"]
  show ?thesis
    unfolding r by (simp add: l Let_def exhausted_spec_def)
qed

section \<open>Responses of superseded queries and failed fetches\<close>

lemma resume_rejected:
  "getItemsPage_resume Rejected s =
     (if is_array (items s) then Throws TypeError (s\<lparr>totalK := Undefined\<rparr>)
      else Returns (s\<lparr>totalK := Undefined, items := Undefined, allItemsLoaded := True,
                     hasLoadedInitialPage := (page s = 1 \<or> hasLoadedInitialPage s),
                     itemsLoading := False\<rparr>))"
  by (cases "items s") (auto simp: getItemsPage_resume_def getItemsPage_finish_def Let_def)

lemma in_flight_init:
  "in_flight (init s) i =
     (in_flight s i \<or> (i = length (requests s) \<and> i \<notin> set (settled s)))"
  by (auto simp: in_flight_def init_def reset_def getItemsPage_issue_def)

text \<open>
  Claim C1, as stated, fails: the screen keeps no epoch. After mounting, the request for
  the empty query (request 0) is in flight; the user types \<open>a\<close>, the debounce timer
  fires and \<open>init\<close> resets the state and issues request 1 for \<open>a\<close>. Request 0 now
  settles: its item 7 becomes \<open>items\<close>, its total 1 becomes \<open>total\<close>, and the item is
  still there after request 1 has settled.
\<close>

theorem stale_response_counterexample:
  "requests (run [Mount [], Type ''a'', Wait 500] (knowledge0 :: nat knowledge))
     = [([], [], 1), (''a'', [], 1)] \<and>
   query (run [Mount [], Type ''a'', Wait 500] (knowledge0 :: nat knowledge)) = ''a'' \<and>
   items (run [Mount [], Type ''a'', Wait 500] (knowledge0 :: nat knowledge)) = Null \<and>
   items (run [Mount [], Type ''a'', Wait 500, Settle 0 (Fulfilled [7] 1)]
            (knowledge0 :: nat knowledge)) = Val [7] \<and>
   totalK (run [Mount [], Type ''a'', Wait 500, Settle 0 (Fulfilled [7] 1)]
            (knowledge0 :: nat knowledge)) = Val 1 \<and>
   items (run [Mount [], Type ''a'', Wait 500, Settle 0 (Fulfilled [7] 1),
               Settle 1 (Fulfilled [8] 2)] (knowledge0 :: nat knowledge)) = Val [7, 8]"
  by code_simp

text \<open>
  Claim C1, amended. A response is applied whenever it settles, to the state of that
  moment, whatever query it was issued under: its items are appended to \<open>items\<close> and
  its total is adopted. In particular a request that is in flight when \<open>init\<close> resets
  the state for a new query stays in flight, and when it settles afterwards its items
  become \<open>items\<close> and its total becomes \<open>total\<close>. A response of a superseded query
  leaves no trace only when it settles before that reset, which clears \<open>items\<close> and
  \<open>total\<close>.
\<close>

theorem response_applied_whenever_it_settles:
  assumes "in_flight s i"
  shows "in_flight (init s) i \<and>
     items (fetch_settles i (Fulfilled pageItems n) (init s)) = Val pageItems \<and>
     totalK (fetch_settles i (Fulfilled pageItems n) (init s)) = Val n \<and>
     items (fetch_settles i (Fulfilled pageItems n) s) = Val (or_empty (items s) @ pageItems) \<and>
     totalK (fetch_settles i (Fulfilled pageItems n) s) = Val n \<and>
     items (init (fetch_settles i r s)) = Null \<and>
     totalK (init (fetch_settles i r s)) = Null"
proof -
  have a: "in_flight (init s) i" using assms by (simp add: in_flight_init)
  have b: "items (init s) = Null" by (simp add: init_def reset_def getItemsPage_issue_def)
  have c: "items (init (fetch_settles i r s)) = Null \<and> totalK (init (fetch_settles i r s)) = Null"
    by (simp add: init_def reset_def getItemsPage_issue_def)
  show ?thesis using a b c assms
    by (cases "items s") (simp_all add: fetch_settles_def resume_fulfilled)
qed

theorem response_applied_whenever_it_settles_witness:
  "in_flight (onMount [] (knowledge0 :: nat knowledge)) 0 \<and>
   requests (init ((onMount [] (knowledge0 :: nat knowledge))\<lparr>query := ''a''\<rparr>))
     = [([], [], 1), (''a'', [], 1)] \<and>
   items (fetch_settles 0 (Fulfilled [7] 1)
            (init ((onMount [] (knowledge0 :: nat knowledge))\<lparr>query := ''a''\<rparr>))) = Val [7] \<and>
   totalK (fetch_settles 0 (Fulfilled [7] 1)
            (init ((onMount [] (knowledge0 :: nat knowledge))\<lparr>query := ''a''\<rparr>))) = Val 1"
proof -
  have f: "in_flight ((onMount [] (knowledge0 :: nat knowledge))\<lparr>query := ''a''\<rparr>) 0"
    by (simp add: mounted_defs)
  have g: "in_flight (onMount [] (knowledge0 :: nat knowledge)) 0"
    by (simp add: mounted_defs)
  have r: "requests (init ((onMount [] (knowledge0 :: nat knowledge))\<lparr>query := ''a''\<rparr>))
     = [([], [], 1), (''a'', [], 1)]"
    by (simp add: mounted_defs)
  from response_applied_whenever_it_settles [OF f, of "[7]" 1] g r
  show ?thesis by simp
qed

text \<open>
  Claim C2 describes what \<open>getItemsPage\<close> sets out to do on a failed fetch (the \<open>catch\<close>
  of line 149, the test of line 155, the assignment of line 180), and the code misses
  it at a rejected later page. Page 1 has been applied and \<open>loadMoreItems\<close> has requested
  page 2; that request is rejected. \<open>res\<close> is then the empty array, which is truthy:
  \<open>total\<close> is overwritten with \<open>undefined\<close>, spreading \<open>res.items\<close> throws, line 180 is
  never reached and the loading flag stays raised. The items are as they were, the page
  cursor stays at 2, and a further \<open>loadMoreItems\<close> returns at line 135 without a request:
  the failed page is not retried.
\<close>

theorem failed_later_page_keeps_loading:
  "getItemsPage_resume Rejected
     (run [Mount [], Settle 0 (Fulfilled [7] 3), LoadMore] (knowledge0 :: nat knowledge))
     = Throws TypeError
        ((run [Mount [], Settle 0 (Fulfilled [7] 3), LoadMore] (knowledge0 :: nat knowledge))
           \<lparr>totalK := Undefined\<rparr>) \<and>
   itemsLoading (run [Mount [], Settle 0 (Fulfilled [7] 3), LoadMore, Settle 1 Rejected]
                   (knowledge0 :: nat knowledge)) \<and>
   totalK (run [Mount [], Settle 0 (Fulfilled [7] 3), LoadMore, Settle 1 Rejected]
                   (knowledge0 :: nat knowledge)) = Undefined \<and>
   items (run [Mount [], Settle 0 (Fulfilled [7] 3), LoadMore, Settle 1 Rejected]
                   (knowledge0 :: nat knowledge)) = Val [7] \<and>
   page (run [Mount [], Settle 0 (Fulfilled [7] 3), LoadMore, Settle 1 Rejected]
                   (knowledge0 :: nat knowledge)) = 2 \<and>
   requests (run [Mount [], Settle 0 (Fulfilled [7] 3), LoadMore, Settle 1 Rejected]
                   (knowledge0 :: nat knowledge)) = [([], [], 1), ([], [], 2)] \<and>
   requests (run [Mount [], Settle 0 (Fulfilled [7] 3), LoadMore, Settle 1 Rejected, LoadMore]
                   (knowledge0 :: nat knowledge)) = [([], [], 1), ([], [], 2)]"
  by (simp add: mounted_defs resume_fulfilled resume_rejected loadMoreItems_def)

section \<open>The Chats screen: filter, frame and tags\<close>

text \<open>
  An instance of the screen for evaluation: two chats in \<open>allChatsData\<close> (array 0, the
  objects 10 and 11), sorted by date, newest first. \<open>no_collation\<close> is a host whose
  \<open>localeCompare\<close> finds all strings equal.
\<close>

definition example_chats :: chats where
  "example_chats =
     \<lparr>loaded_c = True, query_c = [], sortBy = ''date'', sortOrder = ''desc'',
      allChatsData = 0, filteredChats = 1, allTags = [], editingTagChatId = None,
      selectedTagsForChat = [], searchDebounceTimer_c = None,
      arrays = (\<lambda>a. [])(0 := [10, 11]),
      objects = (\<lambda>c. \<lparr>id_chat = [], title = None, updated_at = None, models = None,
                        tags = None\<rparr>)
        (10 := \<lparr>id_chat = ''c1'', title = Some ''Project X'', updated_at = Some 1,
                 models = Some [''gpt''], tags = Some [''alpha'']\<rparr>,
         11 := \<lparr>id_chat = ''c2'', title = Some ''Other'', updated_at = Some 2,
                 models = None, tags = Some [''project-tag'']\<rparr>),
      next_ref = 2, timers_c = timers0, calls = [], toasts = []\<rparr>"

definition no_collation :: "string \<Rightarrow> string \<Rightarrow> int" where
  "no_collation a b = 0"

definition example_replies :: replies where
  "example_replies =
     \<lparr>delete_rejects = (\<lambda>t. False), add_rejects = (\<lambda>t. t = ''b''),
      tags_reply = Resolves (Val [''c'']), all_tags_reply = Resolves (Val [''c''])\<rparr>"

lemma includes_str_sublist: "includes_str s sub = sublist sub s"
  by (induction s) (auto simp: sublist_Cons_right)

lemma set_insert_by: "set (insert_by cmp x ys) = insert x (set ys)"
  by (induction ys) auto

lemma set_array_sort: "set (array_sort cmp xs) = set xs"
  by (induction xs) (auto simp: array_sort_def set_insert_by)

lemma set_uniq: "set (uniq xs) = set xs"
  by (induction xs rule: uniq.induct) auto

lemma distinct_uniq: "distinct (uniq xs)"
  by (induction xs rule: uniq.induct) (auto simp: set_uniq)

lemma objects_applyFiltersAndSort: "objects (applyFiltersAndSort lc s) = objects s"
  by (simp add: applyFiltersAndSort_def new_array_def sort_in_place_def Let_def split: prod.splits)

lemma calls_applyFiltersAndSort: "calls (applyFiltersAndSort lc s) = calls s"
  by (simp add: applyFiltersAndSort_def new_array_def sort_in_place_def Let_def split: prod.splits)

text \<open>
  Claim C9. When the query is not blank, the array \<open>applyFiltersAndSort\<close> stores in
  \<open>filteredChats\<close> names exactly the chats of \<open>allChatsData\<close> for which the lowercased
  query is a substring of the lowercased title, of the lowercased model names joined by
  a space, or of the lowercased tags joined by a space; the chat objects are not
  touched.
\<close>

theorem filter_predicate:
  assumes "trim (query_c s) \<noteq> []"
  shows
    "(let s' = applyFiltersAndSort lc s; q = toLowerCase (query_c s)
      in objects s' = objects s \<and>
         set (arrays s' (filteredChats s')) =
           {c \<in> set (arrays s (allChatsData s)).
              sublist q (toLowerCase (or_blank (title (objects s c)))) \<or>
              sublist q (toLowerCase (join '' '' (or_none (models (objects s c))))) \<or>
              sublist q (toLowerCase (join '' '' (or_none (tags (objects s c)))))})"
  using assms
  by (auto simp: applyFiltersAndSort_def new_array_def sort_in_place_def Let_def set_array_sort
        chat_matches_def includes_str_sublist)

theorem filter_predicate_witness:
  "trim (query_c (example_chats\<lparr>query_c := ''proj''\<rparr>)) \<noteq> [] \<and>
   map title (shown (applyFiltersAndSort no_collation (example_chats\<lparr>query_c := ''proj''\<rparr>)))
     = [Some ''Other'', Some ''Project X''] \<and>
   (let s' = applyFiltersAndSort no_collation (example_chats\<lparr>query_c := ''proj''\<rparr>);
        q = toLowerCase (query_c (example_chats\<lparr>query_c := ''proj''\<rparr>))
    in objects s' = objects (example_chats\<lparr>query_c := ''proj''\<rparr>) \<and>
       set (arrays s' (filteredChats s')) =
         {c \<in> set (arrays (example_chats\<lparr>query_c := ''proj''\<rparr>)
                      (allChatsData (example_chats\<lparr>query_c := ''proj''\<rparr>))).
            sublist q (toLowerCase (or_blank (title
               (objects (example_chats\<lparr>query_c := ''proj''\<rparr>) c)))) \<or>
            sublist q (toLowerCase (join '' '' (or_none (models
               (objects (example_chats\<lparr>query_c := ''proj''\<rparr>) c))))) \<or>
            sublist q (toLowerCase (join '' '' (or_none (tags
               (objects (example_chats\<lparr>query_c := ''proj''\<rparr>) c)))))})"
proof -
  have t: "trim (query_c (example_chats\<lparr>query_c := ''proj''\<rparr>)) \<noteq> []"
    by code_simp
  have v: "map title
       (shown (applyFiltersAndSort no_collation (example_chats\<lparr>query_c := ''proj''\<rparr>)))
     = [Some ''Other'', Some ''Project X'']"
    by code_simp
  from t v filter_predicate [OF t, of no_collation] show ?thesis
    by (intro conjI)
qed

text \<open>
  Claim C10. \<open>applyFiltersAndSort\<close> leaves the variable \<open>allChatsData\<close>, the array it
  names, every other array that existed before the call and all chat objects as they
  were. It changes \<open>filteredChats\<close> only, which is made to name an array created during
  the call: the sorted copy of the filtered array (of \<open>allChatsData\<close> itself when the query
  is blank).
\<close>

theorem applyFiltersAndSort_frame:
  assumes "allChatsData s < next_ref s"
  shows
    "(let s' = applyFiltersAndSort lc s
      in allChatsData s' = allChatsData s \<and>
         arrays s' (allChatsData s') = arrays s (allChatsData s) \<and>
         objects s' = objects s \<and>
         (\<forall>a. a < next_ref s \<longrightarrow> arrays s' a = arrays s a) \<and>
         next_ref s \<le> filteredChats s' \<and> filteredChats s' < next_ref s' \<and>
         s' = s\<lparr>filteredChats := filteredChats s', arrays := arrays s',
                 next_ref := next_ref s'\<rparr> \<and>
         arrays s' (filteredChats s') =
           array_sort
             (\<lambda>x y. compare_chats lc (sortBy s) (sortOrder s) (objects s x) (objects s y))
             (if trim (query_c s) \<noteq> []
              then filter (\<lambda>c. chat_matches (toLowerCase (query_c s)) (objects s c))
                     (arrays s (allChatsData s))
              else arrays s (allChatsData s)))"
  using assms
  by (auto simp: applyFiltersAndSort_def new_array_def sort_in_place_def Let_def)

theorem applyFiltersAndSort_frame_witness:
  "allChatsData example_chats < next_ref example_chats \<and>
   arrays example_chats (allChatsData example_chats) = [10, 11] \<and>
   arrays (applyFiltersAndSort no_collation example_chats)
     (allChatsData (applyFiltersAndSort no_collation example_chats)) = [10, 11] \<and>
   arrays (applyFiltersAndSort no_collation example_chats)
     (filteredChats (applyFiltersAndSort no_collation example_chats)) = [11, 10] \<and>
   filteredChats (applyFiltersAndSort no_collation example_chats) = 2"
proof -
  have h: "allChatsData example_chats < next_ref example_chats"
    by (simp add: example_chats_def)
  have a: "arrays example_chats (allChatsData example_chats) = [10, 11]"
    by (simp add: example_chats_def)
  have v: "arrays (applyFiltersAndSort no_collation example_chats)
             (filteredChats (applyFiltersAndSort no_collation example_chats)) = [11, 10] \<and>
           filteredChats (applyFiltersAndSort no_collation example_chats) = 2"
    by code_simp
  from applyFiltersAndSort_frame [OF h, of no_collation]
  have "arrays (applyFiltersAndSort no_collation example_chats)
          (allChatsData (applyFiltersAndSort no_collation example_chats))
        = arrays example_chats (allChatsData example_chats)"
    unfolding Let_def by blast
  with h a v show ?thesis by metis
qed

text \<open>
  Claim C5, as stated, fails: only the selected tags are normalised. For a chat whose
  one tag is \<open>c\<close> between two blanks, saving the selection unchanged removes that tag
  and adds \<open>c\<close>.
\<close>

theorem tag_diff_counterexample:
  "tagsToAdd ['' c ''] (normalize_selected ['' c '']) = [''c''] \<and>
   tagsToRemove ['' c ''] (normalize_selected ['' c '']) = ['' c '']"
  by code_simp

text \<open>
  Claim C5, amended. For all lists of strings \<open>baseline\<close> and \<open>proposed\<close>, the tags to
  remove are, as a set, \<open>baseline\<close> minus the normalised \<open>proposed\<close>, and the tags to add
  are the normalised \<open>proposed\<close> minus \<open>baseline\<close>, without repetition, where
  normalisation trims, drops the empty string and drops repetitions. For a baseline
  whose tags are all trimmed and not empty, the difference with itself is empty on both
  sides. Baseline \<open>a, b\<close> and proposed \<open>b, c, c\<close> between blanks and the empty string
  give \<open>c\<close> to add and \<open>a\<close> to remove.
\<close>

theorem tag_diff:
  assumes "list_all (\<lambda>t. trim t = t \<and> t \<noteq> []) normalised"
  shows
    "set (tagsToRemove baseline (normalize_selected proposed))
       = set baseline - (trim ` set proposed - {[]}) \<and>
     set (tagsToAdd baseline (normalize_selected proposed))
       = (trim ` set proposed - {[]}) - set baseline \<and>
     distinct (normalize_selected proposed) \<and>
     distinct (tagsToAdd baseline (normalize_selected proposed)) \<and>
     tagsToAdd normalised (normalize_selected normalised) = [] \<and>
     tagsToRemove normalised (normalize_selected normalised) = [] \<and>
     tagsToAdd [''a'', ''b''] (normalize_selected [''b'', ''c'', '' c '', '''']) = [''c''] \<and>
     tagsToRemove [''a'', ''b''] (normalize_selected [''b'', ''c'', '' c '', '''']) = [''a'']"
proof -
  have n: "set (normalize_selected xs) = trim ` set xs - {[]}" for xs
    by (auto simp: normalize_selected_def set_uniq)
  have d: "distinct (normalize_selected xs)" for xs
    by (simp add: normalize_selected_def distinct_uniq)
  have "trim ` set normalised - {[]} = set normalised"
    using assms by (force simp: list_all_iff)
  then have same: "set (normalize_selected normalised) = set normalised"
    by (simp add: n)
  have i: "tagsToAdd normalised (normalize_selected normalised) = [] \<and>
           tagsToRemove normalised (normalize_selected normalised) = []"
    by (simp add: tagsToAdd_def tagsToRemove_def same)
  have e: "tagsToAdd [''a'', ''b''] (normalize_selected [''b'', ''c'', '' c '', '''']) = [''c''] \<and>
           tagsToRemove [''a'', ''b''] (normalize_selected [''b'', ''c'', '' c '', '''']) = [''a'']"
    by code_simp
  have r: "set (tagsToRemove baseline (normalize_selected proposed))
             = set baseline - (trim ` set proposed - {[]})"
    by (auto simp: tagsToRemove_def n)
  have a: "set (tagsToAdd baseline (normalize_selected proposed))
             = (trim ` set proposed - {[]}) - set baseline"
    by (auto simp: tagsToAdd_def n)
  have da: "distinct (tagsToAdd baseline (normalize_selected proposed))"
    by (simp add: tagsToAdd_def d)
  from r a d da i e show ?thesis by blast
qed

theorem tag_diff_witness:
  "list_all (\<lambda>t. trim t = t \<and> t \<noteq> []) [''a'', ''b''] \<and>
   tagsToAdd [''a'', ''b''] (normalize_selected [''a'', ''b'']) = [] \<and>
   tagsToRemove [''a'', ''b''] (normalize_selected [''a'', ''b'']) = [] \<and>
   set (tagsToRemove [''a'', ''b''] (normalize_selected [''b'', '' c'']))
     = set [''a'', ''b''] - (trim ` set [''b'', '' c''] - {[]})"
proof -
  have h: "list_all (\<lambda>t. trim t = t \<and> t \<noteq> []) [''a'', ''b'']"
    by code_simp
  from tag_diff [OF h, of "[''a'', ''b'']" "[''b'', '' c'']"] h show ?thesis
    by blast
qed

text \<open>
  Claim C6, as stated, fails on its second half. The chat \<open>c1\<close> has the tag \<open>alpha\<close>,
  the user selects \<open>b\<close> and \<open>c\<close>, and the server rejects the add of \<open>b\<close>. All three
  requests of the batch have left, so the add of \<open>c\<close> is not held back; the tag list
  is not read again, and the chat keeps the tags it had.
\<close>

theorem saveTag_counterexample:
  "calls (saveTag no_collation example_replies ''c1''
            (example_chats\<lparr>selectedTagsForChat := [''b'', ''c'']\<rparr>))
     = [DeleteTagById ''c1'' ''alpha'', AddTagById ''c1'' ''b'', AddTagById ''c1'' ''c''] \<and>
   tags (objects (saveTag no_collation example_replies ''c1''
            (example_chats\<lparr>selectedTagsForChat := [''b'', ''c'']\<rparr>)) 10) = Some [''alpha''] \<and>
   toasts (saveTag no_collation example_replies ''c1''
            (example_chats\<lparr>selectedTagsForChat := [''b'', ''c'']\<rparr>))
     = [ToastError ''Failed to update tag'']"
  by code_simp

text \<open>
  Claim C6, amended. For a chat that is found, \<open>saveTag\<close> sends every delete and every
  add of the batch before it waits for any of them. Whether deletes are rejected makes
  no difference to what follows: a rejected delete is swallowed. When an add is
  rejected, nothing else is sent and nothing else changes but the error notification:
  the tag list is not read again and the chat keeps its tags. When no add is rejected,
  the tag list is read again, and if that read succeeds the tags of the chat are
  replaced by what the server returned (its empty strings dropped).
\<close>

theorem saveTag_commit:
  assumes "find (\<lambda>c. id_chat (objects s c) = chatId) (arrays s (allChatsData s)) = Some chat"
  shows
    "(let removes = tagsToRemove (or_none (tags (objects s chat)))
                      (normalize_selected (selectedTagsForChat s));
          adds = tagsToAdd (or_none (tags (objects s chat)))
                   (normalize_selected (selectedTagsForChat s));
          batch = map (DeleteTagById chatId) removes @ map (AddTagById chatId) adds;
          s' = saveTag lc rp chatId s
      in saveTag lc (rp\<lparr>delete_rejects := d\<rparr>) chatId s = s' \<and>
         take (length (calls s) + length batch) (calls s') = calls s @ batch \<and>
         (if list_ex (add_rejects rp) adds
          then s' = s\<lparr>calls := calls s @ batch,
                        toasts := toasts s @ [ToastError ''Failed to update tag'']\<rparr>
          else take (length (calls s) + length batch + 1) (calls s')
                 = calls s @ batch @ [GetTagsById chatId] \<and>
               (case tags_reply rp of
                  Rejects \<Rightarrow> objects s' = objects s
                | Resolves v \<Rightarrow>
                    tags (objects s' chat) = Some (filter (\<lambda>t. t \<noteq> []) (or_empty v)))))"
  by (simp add: saveTag_def assms Let_def saveTag_failed_def objects_applyFiltersAndSort
        calls_applyFiltersAndSort split: settle.splits)

theorem saveTag_commit_witness:
  "find (\<lambda>c. id_chat (objects example_chats c) = ''c1'')
     (arrays example_chats (allChatsData example_chats)) = Some 10 \<and>
   calls (saveTag no_collation
            (example_replies\<lparr>delete_rejects := (\<lambda>t. True), add_rejects := (\<lambda>t. False)\<rparr>) ''c1''
            (example_chats\<lparr>selectedTagsForChat := [''b'', ''c'']\<rparr>))
     = [DeleteTagById ''c1'' ''alpha'', AddTagById ''c1'' ''b'', AddTagById ''c1'' ''c'',
        GetTagsById ''c1'', GetAllTags] \<and>
   tags (objects (saveTag no_collation
            (example_replies\<lparr>delete_rejects := (\<lambda>t. True), add_rejects := (\<lambda>t. False)\<rparr>) ''c1''
            (example_chats\<lparr>selectedTagsForChat := [''b'', ''c'']\<rparr>)) 10) = Some [''c''] \<and>
   saveTag no_collation
     (example_replies\<lparr>add_rejects := (\<lambda>t. False), delete_rejects := (\<lambda>t. True)\<rparr>) ''c1''
     (example_chats\<lparr>selectedTagsForChat := [''b'', ''c'']\<rparr>)
   = saveTag no_collation (example_replies\<lparr>add_rejects := (\<lambda>t. False)\<rparr>) ''c1''
       (example_chats\<lparr>selectedTagsForChat := [''b'', ''c'']\<rparr>)"
proof -
  have f: "find (\<lambda>c. id_chat (objects example_chats c) = ''c1'')
     (arrays example_chats (allChatsData example_chats)) = Some 10"
    by code_simp
  have f': "find (\<lambda>c. id_chat (objects (example_chats\<lparr>selectedTagsForChat := [''b'', ''c'']\<rparr>) c)
                     = ''c1'')
     (arrays (example_chats\<lparr>selectedTagsForChat := [''b'', ''c'']\<rparr>)
        (allChatsData (example_chats\<lparr>selectedTagsForChat := [''b'', ''c'']\<rparr>))) = Some 10"
    using f by simp
  have v: "calls (saveTag no_collation
            (example_replies\<lparr>delete_rejects := (\<lambda>t. True), add_rejects := (\<lambda>t. False)\<rparr>) ''c1''
            (example_chats\<lparr>selectedTagsForChat := [''b'', ''c'']\<rparr>))
     = [DeleteTagById ''c1'' ''alpha'', AddTagById ''c1'' ''b'', AddTagById ''c1'' ''c'',
        GetTagsById ''c1'', GetAllTags] \<and>
    tags (objects (saveTag no_collation
            (example_replies\<lparr>delete_rejects := (\<lambda>t. True), add_rejects := (\<lambda>t. False)\<rparr>) ''c1''
            (example_chats\<lparr>selectedTagsForChat := [''b'', ''c'']\<rparr>)) 10) = Some [''c'']"
    by code_simp
  from saveTag_commit
         [OF f', of no_collation "example_replies\<lparr>add_rejects := (\<lambda>t. False)\<rparr>" "\<lambda>t. True"]
  have "saveTag no_collation
     (example_replies\<lparr>add_rejects := (\<lambda>t. False), delete_rejects := (\<lambda>t. True)\<rparr>) ''c1''
     (example_chats\<lparr>selectedTagsForChat := [''b'', ''c'']\<rparr>)
   = saveTag no_collation (example_replies\<lparr>add_rejects := (\<lambda>t. False)\<rparr>) ''c1''
       (example_chats\<lparr>selectedTagsForChat := [''b'', ''c'']\<rparr>)"
    by (simp add: Let_def)
  with f v show ?thesis by simp
qed

section \<open>Debounce: one callback per burst of keystrokes, and teardown\<close>

text \<open>
  A burst of keystrokes: each entry is the time since the previous event and the text
  the input holds after the keystroke. \<open>changing\<close> says that every keystroke changes the
  text (a keystroke that leaves the text as it is runs no reactive statement), \<open>armed\<close>
  that exactly one timer is pending and the handle variable names it.
\<close>

definition armed :: "nat option \<Rightarrow> timer_env \<Rightarrow> nat \<Rightarrow> bool" where
  "armed hv e due = (\<exists>h. h \<noteq> 0 \<and> hv = Some h \<and> pending e = [(h, due)])"

fun changing :: "string \<Rightarrow> string list \<Rightarrow> bool" where
  "changing q [] = True"
| "changing q (x # xs) = (x \<noteq> q \<and> changing x xs)"

fun typing :: "(nat \<times> string) list \<Rightarrow> 'r knowledge \<Rightarrow> 'r knowledge" where
  "typing [] s = s"
| "typing ((gap, q) # ks) s = typing ks (setQuery q (advance gap s))"

fun typing_c :: "(string \<Rightarrow> string \<Rightarrow> int) \<Rightarrow> (nat \<times> string) list \<Rightarrow> chats \<Rightarrow> chats" where
  "typing_c lc [] s = s"
| "typing_c lc ((gap, q) # ks) s = typing_c lc ks (setQuery_c q (advance_c lc gap s))"

lemma debounce_quiet:
  assumes "pending e = []"
  shows "debounce hv delay e =
     (Suc (last_handle e),
      e\<lparr>pending := [(Suc (last_handle e), clock e + delay)], last_handle := Suc (last_handle e)\<rparr>)"
  using assms by (simp add: debounce_def setTimeout_def clearTimeout_def)

lemma debounce_armed:
  assumes "armed hv e due"
  shows "debounce hv delay e =
     (Suc (last_handle e),
      e\<lparr>pending := [(Suc (last_handle e), clock e + delay)], last_handle := Suc (last_handle e)\<rparr>)"
  using assms by (auto simp: armed_def debounce_def setTimeout_def clearTimeout_def)

lemma next_due_quiet: "pending e = [] \<Longrightarrow> next_due t e = None"
  by (simp add: next_due_def)

lemma next_due_armed_early: "armed hv e due \<Longrightarrow> t < due \<Longrightarrow> next_due t e = None"
  by (auto simp: armed_def next_due_def)

lemma next_due_armed_late:
  "pending e = [(h, due)] \<Longrightarrow> due \<le> t \<Longrightarrow> next_due t e = Some (h, due)"
  by (auto simp: next_due_def)

lemma take_timer_single:
  "pending e = [(h, due)] \<Longrightarrow>
   take_timer (h, due) e = e\<lparr>pending := [], clock := max (clock e) due, fired := fired e @ [h]\<rparr>"
  by (simp add: take_timer_def clearTimeout_def)

lemma advance_idle:
  assumes "next_due (clock (timers s) + d) (timers s) = None"
  shows "advance d s = s\<lparr>timers := (timers s)\<lparr>clock := clock (timers s) + d\<rparr>\<rparr>"
  using assms by (simp add: advance_def run_timers.simps Let_def)

lemma advance_fires:
  assumes "pending (timers s) = [(h, due)]" and "due \<le> clock (timers s) + d"
  shows "advance d s =
     (let s' = search_callback (s\<lparr>timers := (timers s)\<lparr>pending := [], fired := fired (timers s) @ [h]\<rparr>\<rparr>)
      in s'\<lparr>timers := (timers s')\<lparr>clock := clock (timers s) + d\<rparr>\<rparr>)"
proof -
  let ?t = "clock (timers s) + d"
  let ?s1 = "search_callback (s\<lparr>timers := take_timer (h, due) (timers s)\<rparr>)"
  have n: "next_due ?t (timers s) = Some (h, due)"
    using assms by (rule next_due_armed_late)
  have "pending (timers ?s1) = []"
    using assms(1) by (simp add: timers_search_callback take_timer_single)
  then have "next_due ?t (timers ?s1) = None" by (rule next_due_quiet)
  then have "run_timers ?t ?s1 = ?s1" by (simp add: run_timers.simps)
  with n have r: "run_timers ?t s = ?s1" by (subst run_timers.simps) simp
  show ?thesis using assms(1)
    unfolding advance_def Let_def r
    by (simp add: take_timer_single search_callback_def init_def reset_def getItemsPage_issue_def)
qed

lemma key_quiet:
  assumes "loaded s" "\<not> isInitialLoad s" "pending (timers s) = []" "q \<noteq> query s" "lastQuery s = query s" 
  shows "setQuery q (advance g s) =
     s\<lparr>query := q, lastQuery := q, searchDebounceTimer := Some (Suc (last_handle (timers s))),
       timers := (timers s)\<lparr>clock := clock (timers s) + g,
          pending := [(Suc (last_handle (timers s)), clock (timers s) + g + 500)],
          last_handle := Suc (last_handle (timers s))\<rparr>\<rparr>"
proof -
  have a: "advance g s = s\<lparr>timers := (timers s)\<lparr>clock := clock (timers s) + g\<rparr>\<rparr>"
    using assms(3) by (intro advance_idle next_due_quiet)
  show ?thesis using assms unfolding a
    by (simp add: setQuery_def query_changed_def debounceSearch_def debounce_quiet)
qed

lemma key_armed:
  assumes "loaded s" "\<not> isInitialLoad s" "armed (searchDebounceTimer s) (timers s) due" "clock (timers s) + g < due"
    "q \<noteq> query s" "lastQuery s = query s" 
  shows "setQuery q (advance g s) =
     s\<lparr>query := q, lastQuery := q, searchDebounceTimer := Some (Suc (last_handle (timers s))),
       timers := (timers s)\<lparr>clock := clock (timers s) + g,
          pending := [(Suc (last_handle (timers s)), clock (timers s) + g + 500)],
          last_handle := Suc (last_handle (timers s))\<rparr>\<rparr>"
proof -
  have a: "advance g s = s\<lparr>timers := (timers s)\<lparr>clock := clock (timers s) + g\<rparr>\<rparr>"
    using assms(3,4) by (intro advance_idle next_due_armed_early)
  have b: "armed (searchDebounceTimer s) ((timers s)\<lparr>clock := clock (timers s) + g\<rparr>) due"
    using assms(3) by (simp add: armed_def)
  show ?thesis using assms(1,2,5,6) unfolding a
    by (simp add: setQuery_def query_changed_def debounceSearch_def debounce_armed[OF b])
qed

text \<open>
  The state of the Knowledge screen right after a keystroke of a burst that began in
  \<open>s\<close>: the timer of that keystroke is the only one pending, nothing has been requested
  and no callback has run since the burst began.
\<close>

definition typed :: "'r knowledge \<Rightarrow> 'r knowledge \<Rightarrow> bool" where
  "typed s s' = (loaded s' \<and> \<not> isInitialLoad s' \<and> lastQuery s' = query s' \<and>
     armed (searchDebounceTimer s') (timers s') (clock (timers s') + 500) \<and>
     requests s' = requests s \<and> fired (timers s') = fired (timers s) \<and>
     viewOption s' = viewOption s)"

lemma typing_armed:
  assumes "typed s0 s" "changing (query s) (map snd ks)" "\<forall>g \<in> set (map fst ks). g < 500"
  shows "typed s0 (typing ks s) \<and> query (typing ks s) = last (query s # map snd ks)"
  using assms
proof (induction ks arbitrary: s)
  case Nil
  then show ?case by simp
next
  case (Cons k ks)
  obtain g q where k: "k = (g, q)" by (cases k)
  let ?s1 = "setQuery q (advance g s)"
  have g: "g < 500" and q: "q \<noteq> query s" using Cons.prems k by auto
  have e: "?s1 = s\<lparr>query := q, lastQuery := q, searchDebounceTimer := Some (Suc (last_handle (timers s))),
       timers := (timers s)\<lparr>clock := clock (timers s) + g,
          pending := [(Suc (last_handle (timers s)), clock (timers s) + g + 500)],
          last_handle := Suc (last_handle (timers s))\<rparr>\<rparr>"
    using Cons.prems(1) g q by (intro key_armed[where due = "clock (timers s) + 500"]) (auto simp: typed_def)
  have t: "typed s0 ?s1"
    using Cons.prems(1) unfolding e by (simp add: typed_def armed_def)
  have q1: "query ?s1 = q" unfolding e by simp
  have "typed s0 (typing ks ?s1) \<and> query (typing ks ?s1) = last (query ?s1 # map snd ks)"
    using Cons.prems(2,3) k by (intro Cons.IH t) (auto simp: q1)
  then show ?case by (simp add: k q1)
qed

lemma burst_knowledge:
  assumes "ks \<noteq> []" "\<forall>g \<in> set (map fst (tl ks)). g < 500"
    "loaded s" "\<not> isInitialLoad s" "lastQuery s = query s" "pending (timers s) = []"
    "changing (query s) (map snd ks)" "500 \<le> d"
  shows "requests (typing ks s) = requests s \<and> fired (timers (typing ks s)) = fired (timers s) \<and>
     requests (advance d (typing ks s)) = requests s @ [(snd (last ks), viewOption s, 1)] \<and>
     length (fired (timers (advance d (typing ks s)))) = Suc (length (fired (timers s))) \<and>
     pending (timers (advance d (typing ks s))) = []"
proof -
  obtain g q ks' where ks: "ks = (g, q) # ks'" using assms(1) by (cases ks) auto
  let ?s1 = "setQuery q (advance g s)"
  have q: "q \<noteq> query s" using assms(7) ks by simp
  have e: "?s1 = s\<lparr>query := q, lastQuery := q, searchDebounceTimer := Some (Suc (last_handle (timers s))),
       timers := (timers s)\<lparr>clock := clock (timers s) + g,
          pending := [(Suc (last_handle (timers s)), clock (timers s) + g + 500)],
          last_handle := Suc (last_handle (timers s))\<rparr>\<rparr>"
    using assms(3-6) q by (intro key_quiet)
  have t: "typed s ?s1" using assms(3,4) unfolding e by (simp add: typed_def armed_def)
  have q1: "query ?s1 = q" unfolding e by simp
  have c: "changing (query ?s1) (map snd ks')" using assms(7) ks by (simp add: q1)
  have gs: "\<forall>g \<in> set (map fst ks'). g < 500" using assms(2) ks by simp
  let ?s2 = "typing ks' ?s1"
  from typing_armed[OF t c gs]
  have t2: "typed s ?s2" and q2: "query ?s2 = last (q # map snd ks')" by (simp_all add: q1)
  have l: "last (q # map snd ks') = snd (last ks)" unfolding ks by (simp add: last_map)
  have s2: "typing ks s = ?s2" unfolding ks by simp
  from t2 obtain h where h: "pending (timers ?s2) = [(h, clock (timers ?s2) + 500)]"
    by (auto simp: typed_def armed_def)
  have due: "clock (timers ?s2) + 500 \<le> clock (timers ?s2) + d" using assms(8) by simp
  note f = advance_fires[OF h due]
  have cb: "query ?s2 = lastQuery ?s2" using t2 by (simp add: typed_def)
  show ?thesis
    unfolding s2 f using t2 q2 l cb
    by (simp add: typed_def Let_def search_callback_def init_def reset_def getItemsPage_issue_def)
qed


lemma advance_c_idle:
  assumes "next_due (clock (timers_c s) + d) (timers_c s) = None"
  shows "advance_c lc d s = s\<lparr>timers_c := (timers_c s)\<lparr>clock := clock (timers_c s) + d\<rparr>\<rparr>"
  using assms by (simp add: advance_c_def run_timers_c.simps Let_def)

lemma advance_c_fires:
  assumes "pending (timers_c s) = [(h, due)]" and "due \<le> clock (timers_c s) + d"
  shows "advance_c lc d s =
     (applyFiltersAndSort lc
        (s\<lparr>timers_c := (timers_c s)\<lparr>pending := [], clock := max (clock (timers_c s)) due,
                                     fired := fired (timers_c s) @ [h]\<rparr>\<rparr>))
     \<lparr>timers_c := (timers_c s)\<lparr>pending := [], clock := clock (timers_c s) + d,
                                fired := fired (timers_c s) @ [h]\<rparr>\<rparr>"
proof -
  let ?t = "clock (timers_c s) + d"
  let ?s1 = "applyFiltersAndSort lc (s\<lparr>timers_c := take_timer (h, due) (timers_c s)\<rparr>)"
  have n: "next_due ?t (timers_c s) = Some (h, due)"
    using assms by (rule next_due_armed_late)
  have "pending (timers_c ?s1) = []"
    using assms(1) by (simp add: timers_applyFiltersAndSort take_timer_single)
  then have "next_due ?t (timers_c ?s1) = None" by (rule next_due_quiet)
  then have "run_timers_c lc ?t ?s1 = ?s1" by (simp add: run_timers_c.simps)
  with n have r: "run_timers_c lc ?t s = ?s1" by (subst run_timers_c.simps) simp
  show ?thesis using assms(1)
    unfolding advance_c_def Let_def r
    by (simp add: take_timer_single timers_applyFiltersAndSort)
qed

text \<open>
  The same for the Chats screen: since the burst began in \<open>s\<close>, only the text, the
  handle variable and the timer table have changed.
\<close>

definition typed_c :: "chats \<Rightarrow> chats \<Rightarrow> bool" where
  "typed_c s s' = (\<exists>q h t. s' = s\<lparr>query_c := q, searchDebounceTimer_c := Some h, timers_c := t\<rparr> \<and>
      h \<noteq> 0 \<and> pending t = [(h, clock t + 500)] \<and> fired t = fired (timers_c s) \<and> loaded_c s)"

lemma typed_cI:
  "s' = s\<lparr>query_c := q, searchDebounceTimer_c := Some h, timers_c := t\<rparr> \<Longrightarrow> h \<noteq> 0 \<Longrightarrow>
   pending t = [(h, clock t + 500)] \<Longrightarrow> fired t = fired (timers_c s) \<Longrightarrow> loaded_c s \<Longrightarrow>
   typed_c s s'"
  unfolding typed_c_def by blast

lemma key_c:
  assumes "loaded_c s" "q \<noteq> query_c s"
    and "pending (timers_c s) = [] \<or>
         (armed (searchDebounceTimer_c s) (timers_c s) due \<and> clock (timers_c s) + g < due)"
  shows "setQuery_c q (advance_c lc g s) =
     s\<lparr>query_c := q, searchDebounceTimer_c := Some (Suc (last_handle (timers_c s))),
       timers_c := (timers_c s)\<lparr>clock := clock (timers_c s) + g,
          pending := [(Suc (last_handle (timers_c s)), clock (timers_c s) + g + 500)],
          last_handle := Suc (last_handle (timers_c s))\<rparr>\<rparr>"
proof -
  have n: "next_due (clock (timers_c s) + g) (timers_c s) = None"
    using assms(3) by (auto simp: next_due_quiet next_due_armed_early)
  have a: "advance_c lc g s = s\<lparr>timers_c := (timers_c s)\<lparr>clock := clock (timers_c s) + g\<rparr>\<rparr>"
    using n by (rule advance_c_idle)
  have d: "debounce (searchDebounceTimer_c s) 500 ((timers_c s)\<lparr>clock := clock (timers_c s) + g\<rparr>) =
     (Suc (last_handle (timers_c s)),
      (timers_c s)\<lparr>clock := clock (timers_c s) + g,
          pending := [(Suc (last_handle (timers_c s)), clock (timers_c s) + g + 500)],
          last_handle := Suc (last_handle (timers_c s))\<rparr>)"
    using assms(3)
  proof
    assume "pending (timers_c s) = []"
    then show ?thesis by (simp add: debounce_quiet)
  next
    assume "armed (searchDebounceTimer_c s) (timers_c s) due \<and> clock (timers_c s) + g < due"
    then have "armed (searchDebounceTimer_c s) ((timers_c s)\<lparr>clock := clock (timers_c s) + g\<rparr>) due"
      by (simp add: armed_def)
    then show ?thesis by (simp add: debounce_armed)
  qed
  show ?thesis using assms(1,2) unfolding a
    by (simp add: setQuery_c_def query_changed_c_def debounceSearch_c_def SEARCH_DEBOUNCE_def d)
qed

lemma typing_c_armed:
  assumes "typed_c s0 s" "changing (query_c s) (map snd ks)" "\<forall>g \<in> set (map fst ks). g < 500"
  shows "typed_c s0 (typing_c lc ks s) \<and> query_c (typing_c lc ks s) = last (query_c s # map snd ks)"
  using assms
proof (induction ks arbitrary: s)
  case Nil
  then show ?case by simp
next
  case (Cons k ks)
  obtain g q where k: "k = (g, q)" by (cases k)
  let ?s1 = "setQuery_c q (advance_c lc g s)"
  have g: "g < 500" and q: "q \<noteq> query_c s" using Cons.prems k by auto
  from Cons.prems(1) obtain q0 h t where
    s: "s = s0\<lparr>query_c := q0, searchDebounceTimer_c := Some h, timers_c := t\<rparr>"
    and h: "h \<noteq> 0" and p: "pending t = [(h, clock t + 500)]"
    and f: "fired t = fired (timers_c s0)" and l: "loaded_c s0"
    unfolding typed_c_def by blast
  have ts: "timers_c s = t" and hs: "searchDebounceTimer_c s = Some h" and ls: "loaded_c s"
    by (simp_all add: s l)
  have ar: "armed (searchDebounceTimer_c s) (timers_c s) (clock (timers_c s) + 500)"
    using h p by (simp add: armed_def ts hs)
  have e: "?s1 = s\<lparr>query_c := q, searchDebounceTimer_c := Some (Suc (last_handle (timers_c s))),
       timers_c := (timers_c s)\<lparr>clock := clock (timers_c s) + g,
          pending := [(Suc (last_handle (timers_c s)), clock (timers_c s) + g + 500)],
          last_handle := Suc (last_handle (timers_c s))\<rparr>\<rparr>"
    using ls q ar g by (intro key_c[where due = "clock (timers_c s) + 500"]) auto
  have q1: "query_c ?s1 = q" unfolding e by simp
  have e': "?s1 = s0\<lparr>query_c := q, searchDebounceTimer_c := Some (Suc (last_handle t)),
       timers_c := t\<lparr>clock := clock t + g,
          pending := [(Suc (last_handle t), clock t + g + 500)],
          last_handle := Suc (last_handle t)\<rparr>\<rparr>"
    unfolding e ts by (simp add: s)
  have t: "typed_c s0 ?s1"
    by (rule typed_cI[OF e']) (simp_all add: l f)
  have "typed_c s0 (typing_c lc ks ?s1) \<and> query_c (typing_c lc ks ?s1) = last (query_c ?s1 # map snd ks)"
    using Cons.prems(2,3) k by (intro Cons.IH t) (auto simp: q1)
  then show ?case by (simp add: k q1)
qed

lemma shown_applyFiltersAndSort:
  "shown (applyFiltersAndSort lc s) =
     map (objects s)
       (array_sort (\<lambda>x y. compare_chats lc (sortBy s) (sortOrder s) (objects s x) (objects s y))
          (if trim (query_c s) \<noteq> []
           then filter (\<lambda>c. chat_matches (toLowerCase (query_c s)) (objects s c))
                  (arrays s (allChatsData s))
           else arrays s (allChatsData s)))"
  by (simp add: shown_def applyFiltersAndSort_def new_array_def sort_in_place_def Let_def)

lemma burst_chats:
  assumes "ks \<noteq> []" "\<forall>g \<in> set (map fst (tl ks)). g < 500"
    "loaded_c c" "pending (timers_c c) = []"
    "changing (query_c c) (map snd ks)" "500 \<le> d"
  shows "fired (timers_c (typing_c lc ks c)) = fired (timers_c c) \<and>
     shown (typing_c lc ks c) = shown c \<and>
     length (fired (timers_c (advance_c lc d (typing_c lc ks c)))) = Suc (length (fired (timers_c c))) \<and>
     pending (timers_c (advance_c lc d (typing_c lc ks c))) = [] \<and>
     shown (advance_c lc d (typing_c lc ks c)) = shown (applyFiltersAndSort lc (c\<lparr>query_c := snd (last ks)\<rparr>))"
proof -
  obtain g q ks' where ks: "ks = (g, q) # ks'" using assms(1) by (cases ks) auto
  let ?s1 = "setQuery_c q (advance_c lc g c)"
  have q: "q \<noteq> query_c c" using assms(5) ks by simp
  have e: "?s1 = c\<lparr>query_c := q, searchDebounceTimer_c := Some (Suc (last_handle (timers_c c))),
       timers_c := (timers_c c)\<lparr>clock := clock (timers_c c) + g,
          pending := [(Suc (last_handle (timers_c c)), clock (timers_c c) + g + 500)],
          last_handle := Suc (last_handle (timers_c c))\<rparr>\<rparr>"
    using assms(3,4) q by (intro key_c[where due = 0]) auto
  have q1: "query_c ?s1 = q" unfolding e by simp
  have t: "typed_c c ?s1"
    by (rule typed_cI[OF e]) (simp_all add: assms(3))
  have ch: "changing (query_c ?s1) (map snd ks')" using assms(5) ks by (simp add: q1)
  have gs: "\<forall>g \<in> set (map fst ks'). g < 500" using assms(2) ks by simp
  let ?s2 = "typing_c lc ks' ?s1"
  from typing_c_armed[OF t ch gs]
  have t2: "typed_c c ?s2" and q2: "query_c ?s2 = last (q # map snd ks')" by (simp_all add: q1)
  have l: "last (q # map snd ks') = snd (last ks)" unfolding ks by (simp add: last_map)
  have s2: "typing_c lc ks c = ?s2" unfolding ks by simp
  from t2 obtain q0 h t where
    s: "?s2 = c\<lparr>query_c := q0, searchDebounceTimer_c := Some h, timers_c := t\<rparr>"
    and h: "h \<noteq> 0" and p: "pending t = [(h, clock t + 500)]"
    and f: "fired t = fired (timers_c c)"
    unfolding typed_c_def by blast
  have ts: "timers_c ?s2 = t" by (simp add: s)
  have p2: "pending (timers_c ?s2) = [(h, clock (timers_c ?s2) + 500)]" using p by (simp add: ts)
  have due: "clock (timers_c ?s2) + 500 \<le> clock (timers_c ?s2) + d" using assms(6) by simp
  note fi = advance_c_fires[OF p2 due, of lc]
  have sh0: "shown ?s2 = shown c" by (simp add: s shown_def)
  have fields: "sortBy ?s2 = sortBy c \<and> sortOrder ?s2 = sortOrder c \<and> objects ?s2 = objects c \<and>
     arrays ?s2 = arrays c \<and> allChatsData ?s2 = allChatsData c"
    by (simp add: s)
  have sh: "shown (advance_c lc d ?s2) = shown (applyFiltersAndSort lc (c\<lparr>query_c := snd (last ks)\<rparr>))"
    unfolding fi using fields q2 l
    by (simp add: shown_def[of "_\<lparr>timers_c := _\<rparr>"] shown_def[symmetric] shown_applyFiltersAndSort)
  show ?thesis
    unfolding s2 using sh sh0 f ts
    by (simp add: fi)
qed
text \<open>
  Claim C4. The screen is loaded and no timer is pending. The user makes one or more
  keystrokes, each changing the text and each less than 500 ms after the one before.
  On the Knowledge screen no request leaves and no callback runs during the burst; once
  500 ms or more have passed after the last keystroke, exactly one callback has run and
  exactly one request has left, for page 1 of the text of the last keystroke, and no
  timer is left that could fire later. On the Chats screen no callback runs during the
  burst and the list shown stays as it was; afterwards exactly one callback has run, no
  timer is left, and the list shown is the one \<open>applyFiltersAndSort\<close> computes for the
  text of the last keystroke.
\<close>

theorem debounce_fires_once:
  fixes s :: "'r knowledge" and c :: chats
  assumes "ks \<noteq> []"
    and "list_all (\<lambda>g. g < 500) (map fst (tl ks))"
    and "500 \<le> d"
    and "loaded s" and "\<not> isInitialLoad s" and "lastQuery s = query s"
    and "pending (timers s) = []" and "changing (query s) (map snd ks)"
    and "loaded_c c" and "pending (timers_c c) = []" and "changing (query_c c) (map snd ks)"
  shows
    "requests (typing ks s) = requests s \<and>
     fired (timers (typing ks s)) = fired (timers s) \<and>
     requests (advance d (typing ks s)) = requests s @ [(snd (last ks), viewOption s, 1)] \<and>
     length (fired (timers (advance d (typing ks s)))) = Suc (length (fired (timers s))) \<and>
     pending (timers (advance d (typing ks s))) = [] \<and>
     fired (timers_c (typing_c lc ks c)) = fired (timers_c c) \<and>
     shown (typing_c lc ks c) = shown c \<and>
     length (fired (timers_c (advance_c lc d (typing_c lc ks c))))
       = Suc (length (fired (timers_c c))) \<and>
     pending (timers_c (advance_c lc d (typing_c lc ks c))) = [] \<and>
     shown (advance_c lc d (typing_c lc ks c))
       = shown (applyFiltersAndSort lc (c\<lparr>query_c := snd (last ks)\<rparr>))"
proof -
  have gaps: "\<forall>g \<in> set (map fst (tl ks)). g < 500"
    using assms(2) by (simp add: list_all_iff)
  note k = burst_knowledge [OF assms(1) gaps assms(4-8) assms(3)]
  note h = burst_chats [OF assms(1) gaps assms(9-11) assms(3), of lc]
  from k h show ?thesis by (simp only: simp_thms)
qed

theorem debounce_fires_once_witness:
  "list_all (\<lambda>g. g < (500 :: nat)) (map fst (tl [(0, ''a''), (100, ''ab''), (100, ''abc'')])) \<and>
   changing (query (onMount [] (knowledge0 :: nat knowledge)))
     (map snd [(0, ''a''), (100, ''ab''), (100, ''abc'')]) \<and>
   changing (query_c example_chats) (map snd [(0, ''a''), (100, ''ab''), (100, ''abc'')]) \<and>
   requests (typing [(0, ''a''), (100, ''ab''), (100, ''abc'')]
               (onMount [] (knowledge0 :: nat knowledge))) = [([], [], 1)] \<and>
   requests (advance 500 (typing [(0, ''a''), (100, ''ab''), (100, ''abc'')]
               (onMount [] (knowledge0 :: nat knowledge)))) = [([], [], 1), (''abc'', [], 1)] \<and>
   length (fired (timers (advance 500 (typing [(0, ''a''), (100, ''ab''), (100, ''abc'')]
               (onMount [] (knowledge0 :: nat knowledge)))))) = 1 \<and>
   length (fired (timers_c (advance_c no_collation 500
             (typing_c no_collation [(0, ''a''), (100, ''ab''), (100, ''abc'')]
                example_chats)))) = 1 \<and>
   shown (advance_c no_collation 500
            (typing_c no_collation [(0, ''a''), (100, ''ab''), (100, ''abc'')] example_chats))
     = shown (applyFiltersAndSort no_collation (example_chats\<lparr>query_c := ''abc''\<rparr>))"
proof -
  let ?ks = "[(0, ''a''), (100, ''ab''), (100, ''abc'')] :: (nat \<times> string) list"
  let ?s = "onMount [] (knowledge0 :: nat knowledge)"
  have a1: "?ks \<noteq> []" by simp
  have a2: "list_all (\<lambda>g. g < 500) (map fst (tl ?ks))" by simp
  have a3: "(500 :: nat) \<le> 500" by simp
  have a4: "loaded ?s" and a5: "\<not> isInitialLoad ?s" and a6: "lastQuery ?s = query ?s"
    and a7: "pending (timers ?s) = []"
    by (simp_all add: mounted_defs)
  have a8: "changing (query ?s) (map snd ?ks)" by (simp add: mounted_defs)
  have b1: "loaded_c example_chats" and b2: "pending (timers_c example_chats) = []"
    by (simp_all add: example_chats_def timers0_def)
  have b3: "changing (query_c example_chats) (map snd ?ks)" by (simp add: example_chats_def)
  have r: "requests ?s = [([], [], 1)]" and f: "fired (timers ?s) = []"
    and v: "viewOption ?s = []"
    by (simp_all add: mounted_defs)
  have g: "fired (timers_c example_chats) = []" by (simp add: example_chats_def timers0_def)
  note th = debounce_fires_once [OF a1 a2 a3 a4 a5 a6 a7 a8 b1 b2 b3, of no_collation]
  from th have c1: "requests (typing ?ks ?s) = requests ?s"
    by blast
  from th have c2: "requests (advance 500 (typing ?ks ?s))
                      = requests ?s @ [(snd (last ?ks), viewOption ?s, 1)]"
    by blast
  from th have c3: "length (fired (timers (advance 500 (typing ?ks ?s))))
                      = Suc (length (fired (timers ?s)))"
    by blast
  from th have c4: "length (fired (timers_c (advance_c no_collation 500
                       (typing_c no_collation ?ks example_chats))))
                      = Suc (length (fired (timers_c example_chats)))"
    by blast
  from th have c5: "shown (advance_c no_collation 500 (typing_c no_collation ?ks example_chats))
       = shown (applyFiltersAndSort no_collation (example_chats\<lparr>query_c := snd (last ?ks)\<rparr>))"
    by blast
  show ?thesis
    unfolding c1 c2 c3 c4 c5 using a2 a8 b3 by (simp add: r v f g)
qed

text \<open>
  Tearing the Knowledge screen down cancels the pending timer: afterwards no timer is
  pending, and however much time passes no callback runs and no request leaves.
\<close>

lemma knowledge_teardown_cancels:
  assumes "armed (searchDebounceTimer s) (timers s) due"
  shows "pending (timers (onDestroy s)) = [] \<and>
         fired (timers (advance d (onDestroy s))) = fired (timers s) \<and>
         requests (advance d (onDestroy s)) = requests s"
proof -
  from assms obtain h where h: "h \<noteq> 0" "searchDebounceTimer s = Some h"
    "pending (timers s) = [(h, due)]"
    by (auto simp: armed_def)
  have p: "pending (timers (onDestroy s)) = []"
    using h by (simp add: onDestroy_def clearTimeout_def)
  then have "next_due (clock (timers (onDestroy s)) + d) (timers (onDestroy s)) = None"
    by (rule next_due_quiet)
  then have a: "advance d (onDestroy s) =
      (onDestroy s)\<lparr>timers := (timers (onDestroy s))\<lparr>clock := clock (timers (onDestroy s)) + d\<rparr>\<rparr>"
    by (rule advance_idle)
  show ?thesis unfolding a using p h by (simp add: onDestroy_def clearTimeout_def)
qed

text \<open>
  Claim C8 holds for the Knowledge screen (the lemma above) and fails for the Chats
  screen, which registers no \<open>onDestroy\<close> callback. On the Chats screen the user types
  \<open>zzz\<close>, which matches no chat, and the component is torn down at once: the timer is
  still pending, 500 ms later its callback runs and \<open>applyFiltersAndSort\<close> replaces the
  list shown. On the Knowledge screen the same steps leave no timer and send no request.
\<close>

theorem chats_timer_fires_after_teardown:
  "pending (timers_c (destroy_c (setQuery_c ''zzz'' example_chats))) = [(1, 500)] \<and>
   fired (timers_c (destroy_c (setQuery_c ''zzz'' example_chats))) = [] \<and>
   filteredChats (destroy_c (setQuery_c ''zzz'' example_chats)) = 1 \<and>
   fired (timers_c (advance_c no_collation 500
                      (destroy_c (setQuery_c ''zzz'' example_chats)))) = [1] \<and>
   filteredChats (advance_c no_collation 500
                    (destroy_c (setQuery_c ''zzz'' example_chats))) = 3 \<and>
   shown (advance_c no_collation 500 (destroy_c (setQuery_c ''zzz'' example_chats))) = [] \<and>
   pending (timers (run [Mount [], Type ''zzz'', Destroy] (knowledge0 :: nat knowledge))) = [] \<and>
   fired (timers (run [Mount [], Type ''zzz'', Destroy, Wait 500]
                    (knowledge0 :: nat knowledge))) = [] \<and>
   requests (run [Mount [], Type ''zzz'', Destroy, Wait 500] (knowledge0 :: nat knowledge))
     = [([], [], 1)]"
  by code_simp

end
